theory Spec2Isabelle
  imports Main "HOL-Library.Char_ord" "HOL-Library.List_Lexorder" "HOL-Library.Product_Lexorder"
    "HOL-Library.Word"
begin

section \<open>Python strings\<close>

text \<open>
  Text is modelled as ASCII: a \<^typ>\<open>string\<close> is the list of the characters of a
  Python \<open>str\<close>. The case mappings act on the letters \<open>a\<close>..\<open>z\<close> and
  \<open>A\<close>..\<open>Z\<close> and leave every other character alone; white space is what
  \<open>str.isspace\<close> accepts below 128.
\<close>

definition upper_char :: "char \<Rightarrow> char" where
  "upper_char c =
     (case map_of (zip ''abcdefghijklmnopqrstuvwxyz'' ''ABCDEFGHIJKLMNOPQRSTUVWXYZ'') c of
        Some u \<Rightarrow> u
      | None \<Rightarrow> c)"

definition lower_char :: "char \<Rightarrow> char" where
  "lower_char c =
     (case map_of (zip ''ABCDEFGHIJKLMNOPQRSTUVWXYZ'' ''abcdefghijklmnopqrstuvwxyz'') c of
        Some l \<Rightarrow> l
      | None \<Rightarrow> c)"

definition upper :: "string \<Rightarrow> string" where
  "upper s = map upper_char s"

definition lower :: "string \<Rightarrow> string" where
  "lower s = map lower_char s"

definition isspace :: "char \<Rightarrow> bool" where
  "isspace c =
     (c \<in> set [CHR 0x09, CHR 0x0A, CHR 0x0B, CHR 0x0C, CHR 0x0D,
                CHR 0x1C, CHR 0x1D, CHR 0x1E, CHR 0x1F, CHR 0x20])"

definition strip :: "string \<Rightarrow> string" where
  "strip s = rev (dropWhile isspace (rev (dropWhile isspace s)))"

text \<open>\<open>s.split(sep)\<close> for a one-character separator: never the empty list.\<close>

fun split :: "char \<Rightarrow> string \<Rightarrow> string list" where
  "split sep [] = [[]]"
| "split sep (c # cs) =
     (if c = sep then [] # split sep cs
      else (case split sep cs of
              [] \<Rightarrow> [[c]]
            | p # ps \<Rightarrow> (c # p) # ps))"

text \<open>\<open>sep.join(parts)\<close>.\<close>

fun join :: "string \<Rightarrow> string list \<Rightarrow> string" where
  "join sep [] = []"
| "join sep [p] = p"
| "join sep (p # q # ps) = p @ sep @ join sep (q # ps)"

text \<open>\<open>s.find(c)\<close> and \<open>s.rfind(c)\<close>: the index of the first (last) occurrence, or -1.\<close>

fun find_char :: "char \<Rightarrow> string \<Rightarrow> int" where
  "find_char c [] = -1"
| "find_char c (x # xs) =
     (if x = c then 0
      else (let i = find_char c xs in if i = -1 then -1 else i + 1))"

definition rfind_char :: "char \<Rightarrow> string \<Rightarrow> int" where
  "rfind_char c s =
     (let i = find_char c (rev s) in if i = -1 then -1 else int (length s) - 1 - i)"

text \<open>The slice \<open>s[i:j]\<close> for indices that are not negative.\<close>

definition slice :: "int \<Rightarrow> int \<Rightarrow> string \<Rightarrow> string" where
  "slice i j s = drop (nat i) (take (nat j) s)"

text \<open>
  \<open>str.splitlines()\<close>: a line ends at LF, CR, CR LF, VT, FF, FS, GS or RS, and the
  text after the last line end is a line only when it is not empty.
\<close>

definition linebreak :: "char \<Rightarrow> bool" where
  "linebreak c =
     (c \<in> set [CHR 0x0A, CHR 0x0B, CHR 0x0C, CHR 0x0D, CHR 0x1C, CHR 0x1D, CHR 0x1E])"

fun splitlines :: "string \<Rightarrow> string list" where
  "splitlines [] = []"
| "splitlines [c] = (if linebreak c then [[]] else [[c]])"
| "splitlines (c # d # cs) =
     (if c = CHR 0x0D \<and> d = CHR 0x0A then [] # splitlines cs
      else if linebreak c then [] # splitlines (d # cs)
      else (case splitlines (d # cs) of
              [] \<Rightarrow> [[c]]
            | l # ls \<Rightarrow> (c # l) # ls))"

text \<open>
  \<open>int(s)\<close> on a string, base ten: white space around the number is dropped, one sign
  may come first, and single underscores may stand between digits. \<open>None\<close> is the
  \<open>ValueError\<close>. The interpreter's bound on the number of digits is not modelled.
\<close>

definition digit_of :: "char \<Rightarrow> nat option" where
  "digit_of c = map_of (zip ''0123456789'' [0, 1, 2, 3, 4, 5, 6, 7, 8, 9]) c"

fun digits_value :: "nat \<Rightarrow> string \<Rightarrow> nat option" where
  "digits_value acc [] = Some acc"
| "digits_value acc [c] =
     (case digit_of c of None \<Rightarrow> None | Some v \<Rightarrow> Some (10 * acc + v))"
| "digits_value acc (c # d # ds) =
     (if c = CHR ''_'' then
        (case digit_of d of
           None \<Rightarrow> None
         | Some v \<Rightarrow> digits_value (10 * acc + v) ds)
      else
        (case digit_of c of
           None \<Rightarrow> None
         | Some v \<Rightarrow> digits_value (10 * acc + v) (d # ds)))"

definition py_int :: "string \<Rightarrow> int option" where
  "py_int s =
     (let t = strip s;
          neg = (case t of c # _ \<Rightarrow> c = CHR ''-'' | [] \<Rightarrow> False);
          body = (case t of c # cs \<Rightarrow> if c = CHR ''-'' \<or> c = CHR ''+'' then cs else t
                  | [] \<Rightarrow> t)
      in case body of
           [] \<Rightarrow> None
         | d # ds \<Rightarrow>
             (case digit_of d of
                None \<Rightarrow> None
              | Some v \<Rightarrow>
                  map_option (\<lambda>n. if neg then - int n else int n) (digits_value v ds)))"

text \<open>The f-string \<open>f"{n}"\<close> of a natural number.\<close>

fun str_nat :: "nat \<Rightarrow> string" where
  "str_nat n =
     (if n < 10 then [''0123456789'' ! n]
      else str_nat (n div 10) @ [''0123456789'' ! (n mod 10)])"

section \<open>The store: table \<open>drawers\<close>\<close>

text \<open>
  A row of the table is \<open>(cabinet, row, column, name, qty)\<close>; \<open>name\<close> and \<open>qty\<close>
  may be NULL, and an INTEGER that is stored is a signed 64-bit value. The primary key is
  \<open>(cabinet, row, column)\<close>. The table is kept as the list of its rows, a new row at
  the end. SQLite answers the query for a cabinet through the index of the primary key,
  so its rows come back in the order of \<open>(row, column)\<close>, compared as text.
\<close>

type_synonym db_row = "string \<times> string \<times> string \<times> string option \<times> 64 word option"

type_synonym table = "db_row list"

text \<open>\<open>SELECT name, qty FROM drawers WHERE row = ? AND column = ? AND cabinet = ?\<close>, \<open>fetchone\<close>.\<close>

definition select_drawer :: "string \<Rightarrow> string \<Rightarrow> string \<Rightarrow> table \<Rightarrow> (string option \<times> 64 word option) option" where
  "select_drawer row column cabinet t =
     map_option (\<lambda>(c, r, cl, n, q). (n, q))
       (find (\<lambda>(c, r, cl, n, q). r = row \<and> cl = column \<and> c = cabinet) t)"

text \<open>\<open>SELECT row, column, name, qty FROM drawers WHERE cabinet = ?\<close>, \<open>fetchall\<close>.\<close>

definition select_cabinet :: "string \<Rightarrow> table \<Rightarrow> (string \<times> string \<times> string option \<times> 64 word option) list" where
  "select_cabinet cabinet t =
     sort_key (\<lambda>(r, cl, n, q). (r, cl))
       (map (\<lambda>(c, r, cl, n, q). (r, cl, n, q)) (filter (\<lambda>(c, r, cl, n, q). c = cabinet) t))"

text \<open>
  \<open>INSERT OR REPLACE INTO drawers (cabinet, row, column, name, qty) VALUES (?, ?, ?, ?, ?)\<close>:
  the row with the same primary key, if any, is deleted and the new row inserted.
\<close>

definition insert_or_replace :: "string \<Rightarrow> string \<Rightarrow> string \<Rightarrow> string \<Rightarrow> 64 word \<Rightarrow> table \<Rightarrow> table" where
  "insert_or_replace cabinet row column nm q t =
     filter (\<lambda>(c, r, cl, _, _). \<not> (c = cabinet \<and> r = row \<and> cl = column)) t
       @ [(cabinet, row, column, Some nm, Some q)]"

section \<open>InventoryManager\<close>

text \<open>The dictionary \<open>{"name": ..., "qty": ...}\<close> that the reads return.\<close>

record drawer =
  name :: string
  qty :: int

text \<open>
  An entry of the history. The source's type \<open>'delete'\<close> marks a write to a drawer that
  read as empty (undone by emptying it), \<open>'update'\<close> any other write.
\<close>

datatype action_type = Delete | Update

record action =
  act_id :: string
  act_cabinet :: string
  prev_name :: string
  prev_qty :: int
  new_name :: string
  new_qty :: int
  act_type :: action_type

text \<open>
  The manager's state: the table behind \<open>db_path\<close>, the two stacks (the top is the end
  of the list, as \<open>append\<close> and \<open>pop\<close> have it), and \<open>faults\<close>, the fate of the coming
  accesses to the store: each access takes the head, \<open>True\<close> makes it fail (the
  connection or the statement raises), and an empty list lets every access through.
\<close>

record manager =
  db :: table
  action_history :: "action list"
  redo_stack :: "action list"
  faults :: "bool list"

datatype error = StorageError | OverflowError

text \<open>One access to the store: whether it goes through, and the state after it.\<close>

definition connect :: "manager \<Rightarrow> bool \<times> manager" where
  "connect s =
     (case faults s of
        [] \<Rightarrow> (True, s)
      | f # fs \<Rightarrow> (\<not> f, s\<lparr>faults := fs\<rparr>))"

text \<open>A Python dictionary, in insertion order: assigning to a key it has keeps the key's place.\<close>

type_synonym inventory = "(string \<times> drawer) list"

fun dict_set :: "string \<Rightarrow> drawer \<Rightarrow> inventory \<Rightarrow> inventory" where
  "dict_set k v [] = [(k, v)]"
| "dict_set k v ((k', v') # kvs) =
     (if k' = k then (k, v) # kvs else (k', v') # dict_set k v kvs)"

definition empty_drawer :: drawer where
  "empty_drawer = \<lparr>name = '''', qty = 0\<rparr>"

text \<open>\<open>{"name": name or "", "qty": qty or 0}\<close>.\<close>

definition as_drawer :: "string option \<Rightarrow> 64 word option \<Rightarrow> drawer" where
  "as_drawer n q =
     \<lparr>name = (case n of None \<Rightarrow> '''' | Some x \<Rightarrow> x),
      qty = (case q of None \<Rightarrow> 0 | Some w \<Rightarrow> sint w)\<rparr>"

definition get_inventory :: "string \<Rightarrow> manager \<Rightarrow> inventory \<times> manager" where
  "get_inventory cabinet s =
     (let (ok, s') = connect s in
      if ok then
        (fold (\<lambda>(row, column, n, q) inventory.
                  dict_set (upper (row @ column)) (as_drawer n q) inventory)
              (select_cabinet cabinet (db s')) [],
         s')
      else ([], s'))"

definition get_drawer :: "string \<Rightarrow> string \<Rightarrow> manager \<Rightarrow> drawer \<times> manager" where
  "get_drawer drawer_id cabinet s =
     (if length drawer_id < 2 then (empty_drawer, s)
      else
        (let row = upper (take 1 drawer_id);
             column = drop 1 drawer_id;
             (ok, s') = connect s
         in if ok then
              (case select_drawer row column cabinet (db s') of
                 Some (n, q) \<Rightarrow> (as_drawer n q, s')
               | None \<Rightarrow> (empty_drawer, s'))
            else (empty_drawer, s')))"

text \<open>
  A Python integer bound to a parameter of a statement must fit 64 bits signed, or the
  driver raises \<open>OverflowError\<close>.
\<close>

definition fits_int64 :: "int \<Rightarrow> bool" where
  "fits_int64 q = (- (2 ^ 63) \<le> q \<and> q < 2 ^ 63)"

definition update_drawer_in_db :: "string \<Rightarrow> string \<Rightarrow> int \<Rightarrow> string \<Rightarrow> manager \<Rightarrow> (error + unit) \<times> manager" where
  "update_drawer_in_db drawer_id nm q cabinet s =
     (if length drawer_id < 2 then (Inr (), s)
      else
        (let row_char = upper (take 1 drawer_id);
             column_num = drop 1 drawer_id;
             (ok, s') = connect s
         in if \<not> ok then (Inl StorageError, s')
            else if \<not> fits_int64 q then (Inl OverflowError, s')
            else (Inr (), s'\<lparr>db := insert_or_replace cabinet row_char column_num nm (word_of_int q) (db s')\<rparr>)))"

definition record_action :: "action \<Rightarrow> manager \<Rightarrow> manager" where
  "record_action a s = s\<lparr>action_history := action_history s @ [a], redo_stack := []\<rparr>"

text \<open>The dictionary \<open>action_data\<close> that \<open>update_drawer\<close> builds from the drawer it read.\<close>

definition action_data :: "string \<Rightarrow> string \<Rightarrow> drawer \<Rightarrow> string \<Rightarrow> int \<Rightarrow> action" where
  "action_data drawer_id cabinet old nm q =
     (let is_new = (name old = '''' \<and> qty old = 0) in
      \<lparr>act_id = drawer_id, act_cabinet = cabinet,
       prev_name = name old, prev_qty = qty old,
       new_name = nm, new_qty = q,
       act_type = (if is_new then Delete else Update)\<rparr>)"

definition update_drawer :: "string \<Rightarrow> string \<Rightarrow> int \<Rightarrow> string \<Rightarrow> manager \<Rightarrow> (error + unit) \<times> manager" where
  "update_drawer drawer_id nm q cabinet s =
     (let (old, s1) = get_drawer drawer_id cabinet s;
          s2 = record_action (action_data drawer_id cabinet old nm q) s1
      in update_drawer_in_db drawer_id nm q cabinet s2)"

definition undo :: "manager \<Rightarrow> bool \<times> manager" where
  "undo s =
     (if action_history s = [] then (False, s)
      else
        (let a = last (action_history s);
             s1 = s\<lparr>action_history := butlast (action_history s)\<rparr>;
             cabinet_for_undo = act_cabinet a;
             (r, s2) =
               (case act_type a of
                  Update \<Rightarrow> update_drawer_in_db (act_id a) (prev_name a) (prev_qty a) cabinet_for_undo s1
                | Delete \<Rightarrow> update_drawer_in_db (act_id a) '''' 0 cabinet_for_undo s1)
         in case r of
              Inr _ \<Rightarrow> (True, s2\<lparr>redo_stack := redo_stack s2 @ [a]\<rparr>)
            | Inl _ \<Rightarrow> (False, s2)))"

definition redo :: "manager \<Rightarrow> bool \<times> manager" where
  "redo s =
     (if redo_stack s = [] then (False, s)
      else
        (let a = last (redo_stack s);
             s1 = s\<lparr>redo_stack := butlast (redo_stack s)\<rparr>;
             cabinet_for_redo = act_cabinet a;
             (r, s2) = update_drawer_in_db (act_id a) (new_name a) (new_qty a) cabinet_for_redo s1
         in case r of
              Inr _ \<Rightarrow> (True, s2\<lparr>action_history := action_history s2 @ [a]\<rparr>)
            | Inl _ \<Rightarrow> (False, s2)))"

section \<open>The key space\<close>

definition generate_all_drawer_keys :: "string list" where
  "generate_all_drawer_keys =
     concat (map (\<lambda>row. map (\<lambda>col. row @ str_nat col) [1..<10]) [''A'', ''B'', ''C'', ''D''])
       @ concat (map (\<lambda>row. map (\<lambda>col. row @ str_nat col) [1..<5]) [''E'', ''F'', ''G''])"

text \<open>The body of both loops of \<open>pad_inventory\<close>: \<open>if key not in inventory: inventory[key] = ...\<close>.\<close>

definition pad_key :: "string \<Rightarrow> inventory \<Rightarrow> inventory" where
  "pad_key key inventory =
     (if map_of inventory key = None then dict_set key \<lparr>name = '''', qty = 0\<rparr> inventory
      else inventory)"

definition pad_inventory :: "inventory \<Rightarrow> inventory" where
  "pad_inventory inventory =
     (let small =
            fold (\<lambda>row i. fold (\<lambda>col. pad_key (row @ str_nat col)) [1..<10] i)
                 [''A'', ''B'', ''C'', ''D''] inventory
      in fold (\<lambda>row i. fold (\<lambda>col. pad_key (row @ str_nat col)) [1..<5] i)
              [''E'', ''F'', ''G''] small)"

section \<open>Resolving records: bulk text update and TXT import\<close>

text \<open>\<open>sorted(list(set(all_keys) - used_keys))\<close>, as both paths compute it.\<close>

definition available_keys :: "inventory \<Rightarrow> string list" where
  "available_keys current_inventory =
     (let all_keys = generate_all_drawer_keys;
          used_keys = set (map fst current_inventory)
      in sort (remdups (filter (\<lambda>k. k \<notin> used_keys) all_keys)))"

text \<open>
  \<open>next((k for k, v in inventory.items() if v.get('name', '').lower() == nm.lower()), None)\<close>:
  the first key, in the dictionary's order, whose name is \<open>nm\<close> up to case.
\<close>

definition first_match :: "string \<Rightarrow> inventory \<Rightarrow> string option" where
  "first_match nm inventory =
     map_option fst (find (\<lambda>(loc, val). lower (name val) = lower nm) inventory)"



text \<open>
  \<open>import_txt\<close>, first shape, \<open>"id: name (quantity)"\<close>: the drawer id, the name and the
  quantity, or \<open>None\<close> when \<open>drawer_id\<close> is still \<open>None\<close> after the block.
\<close>

definition parse_id_name_qty :: "string \<Rightarrow> (string \<times> string \<times> int) option" where
  "parse_id_name_qty line =
     (if CHR '':'' \<in> set line \<and> CHR ''('' \<in> set line \<and> CHR '')'' \<in> set line then
        (let parts = split CHR '':'' line;
             drawer_id_part = upper (strip (hd parts));
             name_qty_part = strip (join '':'' (tl parts));
             name_start = find_char CHR ''('' name_qty_part;
             name_end = rfind_char CHR '')'' name_qty_part
         in if name_start \<noteq> -1 \<and> name_end \<noteq> -1 \<and> name_end > name_start then
              (case py_int (strip (slice (name_start + 1) name_end name_qty_part)) of
                 None \<Rightarrow> None
               | Some q \<Rightarrow> Some (drawer_id_part, strip (take (nat name_start) name_qty_part), q))
            else None)
      else None)"

text \<open>
  \<open>import_txt\<close>, second block, \<open>"id,name,quantity"\<close> or \<open>"name,quantity"\<close>: the drawer
  id, name and quantity to write, or \<open>None\<close> where the source goes on to the next line.
\<close>

definition parse_fields :: "string \<Rightarrow> string \<Rightarrow> manager \<Rightarrow> (string \<times> string \<times> int) option \<times> manager" where
  "parse_fields cabinet line s =
     (case map strip (split CHR '','' line) of
        [p0, p1, p2] \<Rightarrow>
          (case py_int p2 of
             None \<Rightarrow> (None, s)
           | Some q \<Rightarrow> (Some (upper p0, p1, q), s))
      | [potential_name, p1] \<Rightarrow>
          (case py_int p1 of
             None \<Rightarrow> (None, s)
           | Some potential_qty \<Rightarrow>
               (let (inventory, s1) = get_inventory cabinet s in
                case map_of inventory (upper potential_name) of
                  Some _ \<Rightarrow>
                    (let drawer_id = upper potential_name;
                         (d, s2) = get_drawer drawer_id cabinet s1
                     in (Some (drawer_id, name d, potential_qty), s2))
                | None \<Rightarrow>
                    (let (current_inventory, s2) = get_inventory cabinet s1 in
                     case first_match potential_name current_inventory of
                       Some (m # ms) \<Rightarrow> (Some (m # ms, potential_name, potential_qty), s2)
                     | _ \<Rightarrow>
                         (case available_keys current_inventory of
                            k # _ \<Rightarrow> (Some (k, potential_name, potential_qty), s2)
                          | [] \<Rightarrow> (None, s2)))))
      | _ \<Rightarrow> (None, s))"

text \<open>
  The body of the loop of \<open>import_txt\<close> for one line. \<open>Inl\<close> is an exception of
  \<open>update_drawer\<close>, which no handler inside the loop catches.
\<close>

definition import_txt_line :: "string \<Rightarrow> string \<Rightarrow> manager \<Rightarrow> (error + unit) \<times> manager" where
  "import_txt_line cabinet raw s =
     (let line = strip raw in
      if line = [] then (Inr (), s)
      else
        (let (parsed, s1) =
               (case parse_id_name_qty line of
                  Some r \<Rightarrow> (Some r, s)
                | None \<Rightarrow> parse_fields cabinet line s)
         in case parsed of
              Some (drawer_id, nm, q) \<Rightarrow>
                if drawer_id \<noteq> [] then update_drawer drawer_id nm q cabinet s1
                else (Inr (), s1)
            | None \<Rightarrow> (Inr (), s1)))"

fun import_txt_lines :: "string \<Rightarrow> string list \<Rightarrow> manager \<Rightarrow> bool \<times> manager" where
  "import_txt_lines cabinet [] s = (True, s)"
| "import_txt_lines cabinet (line # lines) s =
     (case import_txt_line cabinet line s of
        (Inl _, s') \<Rightarrow> (False, s')
      | (Inr _, s') \<Rightarrow> import_txt_lines cabinet lines s')"

text \<open>\<open>import_txt\<close> on the decoded content of the file.\<close>

definition import_txt :: "string \<Rightarrow> string \<Rightarrow> manager \<Rightarrow> bool \<times> manager" where
  "import_txt content cabinet s = import_txt_lines cabinet (splitlines content) s"

section \<open>Clients of the manager\<close>

text \<open>
  A client that issues a list of \<open>update_drawer\<close> calls \<open>(drawer_id, name, qty, cabinet)\<close>
  one after the other; \<open>None\<close> when one of them raises. Then \<open>n\<close> calls of \<open>undo\<close>, and
  \<open>n\<close> calls of \<open>redo\<close>.
\<close>

fun update_all :: "(string \<times> string \<times> int \<times> string) list \<Rightarrow> manager \<Rightarrow> manager option" where
  "update_all [] s = Some s"
| "update_all ((drawer_id, nm, q, cabinet) # ws) s =
     (case update_drawer drawer_id nm q cabinet s of
        (Inr _, s') \<Rightarrow> update_all ws s'
      | (Inl _, _) \<Rightarrow> None)"

fun undo_times :: "nat \<Rightarrow> manager \<Rightarrow> manager" where
  "undo_times 0 s = s"
| "undo_times (Suc n) s = undo_times n (snd (undo s))"

fun redo_times :: "nat \<Rightarrow> manager \<Rightarrow> manager" where
  "redo_times 0 s = s"
| "redo_times (Suc n) s = redo_times n (snd (redo s))"

section \<open>Views used in the proofs\<close>

text \<open>
  What \<open>get_drawer\<close> reads from a table and what \<open>_update_drawer_in_db\<close> makes of it
  when the store can be reached and the quantity fits.
\<close>

definition read_drawer :: "string \<Rightarrow> string \<Rightarrow> table \<Rightarrow> drawer" where
  "read_drawer d c t =
     (if length d < 2 then empty_drawer
      else (case select_drawer (upper (take 1 d)) (drop 1 d) c t of
              Some (n, q) \<Rightarrow> as_drawer n q
            | None \<Rightarrow> empty_drawer))"

definition write_db :: "string \<Rightarrow> string \<Rightarrow> int \<Rightarrow> string \<Rightarrow> table \<Rightarrow> table" where
  "write_db d n q c t =
     (if length d < 2 then t
      else insert_or_replace c (upper (take 1 d)) (drop 1 d) n (word_of_int q) t)"

definition apply_new :: "action \<Rightarrow> table \<Rightarrow> table" where
  "apply_new a t = write_db (act_id a) (new_name a) (new_qty a) (act_cabinet a) t"

definition undo_db :: "action \<Rightarrow> table \<Rightarrow> table" where
  "undo_db a t =
     (case act_type a of
        Update \<Rightarrow> write_db (act_id a) (prev_name a) (prev_qty a) (act_cabinet a) t
      | Delete \<Rightarrow> write_db (act_id a) '''' 0 (act_cabinet a) t)"

definition veq :: "table \<Rightarrow> table \<Rightarrow> bool" where
  "veq t t' = (\<forall>d c. read_drawer d c t = read_drawer d c t')"

definition good :: "action \<Rightarrow> table \<Rightarrow> bool" where
  "good a t =
     (a = action_data (act_id a) (act_cabinet a) (read_drawer (act_id a) (act_cabinet a) t)
            (new_name a) (new_qty a)
      \<and> (length (act_id a) < 2 \<or> fits_int64 (new_qty a)))"

fun trace_ok :: "table \<Rightarrow> action list \<Rightarrow> bool" where
  "trace_ok t [] = True"
| "trace_ok t (a # as) = (good a t \<and> trace_ok (apply_new a t) as)"


section \<open>The scope of the resolution theorems\<close>




section \<open>Example states\<close>

definition empty_store :: manager where
  "empty_store = \<lparr>db = [], action_history = [], redo_stack = [], faults = []\<rparr>"

definition bolts_store :: manager where
  "bolts_store =
     \<lparr>db = [(''Default'', ''B'', ''3'', Some ''Bolts'', Some 2)],
      action_history = [], redo_stack = [], faults = []\<rparr>"





section \<open>The store and the stacks\<close>

lemma sint_fits: "fits_int64 q \<Longrightarrow> sint (word_of_int q :: 64 word) = q"
  unfolding fits_int64_def by (simp add: sint_sbintrunc' signed_take_bit_int_eq_self)

lemma fits_sint: "fits_int64 (sint (w :: 64 word))"
  unfolding fits_int64_def using sint_ge[of w] sint_lt[of w] by simp

lemma fits_zero: "fits_int64 0"
  by (simp add: fits_int64_def)

lemma connect_ok: "faults s = [] \<Longrightarrow> connect s = (True, s)"
  by (simp add: connect_def)

lemma get_drawer_fields:
  "db (snd (get_drawer d c s)) = db s"
  "action_history (snd (get_drawer d c s)) = action_history s"
  "redo_stack (snd (get_drawer d c s)) = redo_stack s"
  by (auto simp: get_drawer_def Let_def connect_def split: list.splits option.splits prod.splits)

lemma get_drawer_read: "faults s = [] \<Longrightarrow> get_drawer d c s = (read_drawer d c (db s), s)"
  by (auto simp: get_drawer_def read_drawer_def Let_def connect_ok split: option.splits)

lemma get_drawer_short: "length d < 2 \<Longrightarrow> get_drawer d c s = (empty_drawer, s)"
  by (simp add: get_drawer_def)

lemma write_short: "length d < 2 \<Longrightarrow> update_drawer_in_db d n q c s = (Inr (), s)"
  by (simp add: update_drawer_in_db_def)

lemma write_stacks:
  "action_history (snd (update_drawer_in_db d n q c s)) = action_history s"
  "redo_stack (snd (update_drawer_in_db d n q c s)) = redo_stack s"
  by (auto simp: update_drawer_in_db_def Let_def connect_def split: list.splits prod.splits)

lemma write_failed_db:
  "fst (update_drawer_in_db d n q c s) = Inl e \<Longrightarrow> db (snd (update_drawer_in_db d n q c s)) = db s"
  by (auto simp: update_drawer_in_db_def Let_def connect_def split: list.splits prod.splits if_splits)

lemma write_ok:
  "faults s = [] \<Longrightarrow> length d < 2 \<or> fits_int64 q \<Longrightarrow>
   update_drawer_in_db d n q c s = (Inr (), s\<lparr>db := write_db d n q c (db s)\<rparr>)"
  by (auto simp: update_drawer_in_db_def write_db_def Let_def connect_ok)

lemma write_overflow:
  "faults s = [] \<Longrightarrow> 2 \<le> length d \<Longrightarrow> \<not> fits_int64 q \<Longrightarrow>
   update_drawer_in_db d n q c s = (Inl OverflowError, s)"
  by (auto simp: update_drawer_in_db_def Let_def connect_ok)

lemma update_drawer_unfold:
  "update_drawer d n q c s =
     update_drawer_in_db d n q c
       (record_action (action_data d c (fst (get_drawer d c s)) n q) (snd (get_drawer d c s)))"
  by (simp add: update_drawer_def Let_def split: prod.splits)

lemma update_drawer_stacks:
  "action_history (snd (update_drawer d n q c s)) =
     action_history s @ [action_data d c (fst (get_drawer d c s)) n q]"
  "redo_stack (snd (update_drawer d n q c s)) = []"
  by (simp_all add: update_drawer_unfold write_stacks record_action_def get_drawer_fields)

lemma update_drawer_ok:
  assumes "faults s = []" and "length d < 2 \<or> fits_int64 q"
  shows "update_drawer d n q c s =
           (Inr (), s\<lparr>action_history := action_history s @ [action_data d c (read_drawer d c (db s)) n q],
                      redo_stack := [], db := write_db d n q c (db s)\<rparr>)"
  using assms by (simp add: update_drawer_unfold get_drawer_read record_action_def write_ok)

lemma update_drawer_overflow:
  assumes "faults s = []" and "2 \<le> length d" and "\<not> fits_int64 q"
  shows "fst (update_drawer d n q c s) = Inl OverflowError"
  using assms by (simp add: update_drawer_unfold get_drawer_read record_action_def write_overflow)

lemma update_drawer_Inr:
  assumes "faults s = []" and "update_drawer d n q c s = (Inr u, s1)"
  shows "length d < 2 \<or> fits_int64 q"
  using assms update_drawer_overflow[of s d q n c] by (cases "length d < 2") auto

lemma undo_ok:
  assumes "faults s = []" and "action_history s = h @ [a]" and "fits_int64 (prev_qty a)"
  shows "undo s = (True, s\<lparr>action_history := h, db := undo_db a (db s),
                           redo_stack := redo_stack s @ [a]\<rparr>)"
  using assms
  by (cases "act_type a") (simp_all add: undo_def Let_def write_ok undo_db_def fits_zero)

lemma redo_ok:
  assumes "faults s = []" and "redo_stack s = r @ [a]"
    and "length (act_id a) < 2 \<or> fits_int64 (new_qty a)"
  shows "redo s = (True, s\<lparr>redo_stack := r, db := apply_new a (db s),
                           action_history := action_history s @ [a]\<rparr>)"
  using assms by (simp add: redo_def Let_def write_ok apply_new_def)

section \<open>Reading after writing\<close>

lemma select_insert:
  "select_drawer r cl c (insert_or_replace c' r' cl' n w t) =
     (if r = r' \<and> cl = cl' \<and> c = c' then Some (Some n, Some w) else select_drawer r cl c t)"
  by (induction t) (auto simp: select_drawer_def insert_or_replace_def)

lemma read_write:
  "read_drawer d' c' (write_db d n q c t) =
     (if 2 \<le> length d \<and> 2 \<le> length d' \<and> upper (take 1 d') = upper (take 1 d)
          \<and> drop 1 d' = drop 1 d \<and> c' = c
      then \<lparr>name = n, qty = sint (word_of_int q :: 64 word)\<rparr>
      else read_drawer d' c' t)"
  by (auto simp: read_drawer_def write_db_def select_insert as_drawer_def)

lemma read_fits: "fits_int64 (qty (read_drawer d c t))"
  by (auto simp: read_drawer_def as_drawer_def empty_drawer_def fits_zero fits_sint
           split: option.splits)

lemma veq_refl: "veq t t"
  by (simp add: veq_def)

lemma veq_write: "veq t t' \<Longrightarrow> veq (write_db d n q c t) (write_db d n q c t')"
  by (simp add: veq_def read_write)

lemma veq_apply_new: "veq t t' \<Longrightarrow> veq (apply_new a t) (apply_new a t')"
  by (simp add: apply_new_def veq_write)

lemma veq_fold: "veq t t' \<Longrightarrow> veq (fold apply_new as t) (fold apply_new as t')"
  by (induction as arbitrary: t t') (simp_all add: veq_apply_new)

lemma good_prev:
  assumes "good a t"
  shows "prev_name a = name (read_drawer (act_id a) (act_cabinet a) t)"
    and "prev_qty a = qty (read_drawer (act_id a) (act_cabinet a) t)"
    and "act_type a = Delete \<Longrightarrow> read_drawer (act_id a) (act_cabinet a) t = \<lparr>name = '''', qty = 0\<rparr>"
proof -
  let ?old = "read_drawer (act_id a) (act_cabinet a) t"
  have eq: "a = action_data (act_id a) (act_cabinet a) ?old (new_name a) (new_qty a)"
    using assms by (simp add: good_def)
  have "prev_name (action_data (act_id a) (act_cabinet a) ?old (new_name a) (new_qty a)) = name ?old"
    by (simp add: action_data_def Let_def)
  with eq show "prev_name a = name ?old" by simp
  have "prev_qty (action_data (act_id a) (act_cabinet a) ?old (new_name a) (new_qty a)) = qty ?old"
    by (simp add: action_data_def Let_def)
  with eq show "prev_qty a = qty ?old" by simp
  assume d: "act_type a = Delete"
  have "act_type (action_data (act_id a) (act_cabinet a) ?old (new_name a) (new_qty a)) =
          (if name ?old = '''' \<and> qty ?old = 0 then Delete else Update)"
    by (simp add: action_data_def Let_def)
  with eq d have "name ?old = '''' \<and> qty ?old = 0"
    by (metis action_type.distinct(1))
  then show "?old = \<lparr>name = '''', qty = 0\<rparr>" by simp
qed

lemma undo_db_restores:
  assumes g: "good a t0" and v: "veq t (apply_new a t0)"
  shows "veq (undo_db a t) t0"
proof -
  let ?d = "act_id a" and ?c = "act_cabinet a"
  let ?old = "read_drawer ?d ?c t0"
  have fit: "sint (word_of_int (qty ?old) :: 64 word) = qty ?old"
    by (rule sint_fits) (rule read_fits)
  have inv: "undo_db a t = write_db ?d (name ?old) (qty ?old) ?c t"
  proof (cases "act_type a")
    case Delete
    with good_prev(3)[OF g] have "?old = \<lparr>name = '''', qty = 0\<rparr>" by simp
    then have "name ?old = ''''" "qty ?old = 0" by simp_all
    with Delete show ?thesis by (simp add: undo_db_def)
  next
    case Update
    then show ?thesis by (simp add: undo_db_def good_prev(1,2)[OF g])
  qed
  have "read_drawer d' c' (undo_db a t) = read_drawer d' c' t0" for d' c'
  proof (cases "2 \<le> length ?d \<and> 2 \<le> length d' \<and> upper (take 1 d') = upper (take 1 ?d)
                  \<and> drop 1 d' = drop 1 ?d \<and> c' = ?c")
    case True
    then have "read_drawer d' c' t0 = ?old"
      by (simp add: read_drawer_def)
    with True show ?thesis
      by (simp add: inv read_write fit)
  next
    case False
    have "read_drawer d' c' (undo_db a t) = read_drawer d' c' t"
      unfolding inv by (subst read_write, rule if_not_P, rule False)
    also have "\<dots> = read_drawer d' c' (apply_new a t0)"
      using v by (simp add: veq_def)
    also have "\<dots> = read_drawer d' c' t0"
      unfolding apply_new_def by (subst read_write, rule if_not_P, rule False)
    finally show ?thesis .
  qed
  then show ?thesis by (simp add: veq_def)
qed


section \<open>Runs of writes, undos and redos\<close>

lemma trace_ok_append:
  "trace_ok t (as @ bs) = (trace_ok t as \<and> trace_ok (fold apply_new as t) bs)"
  by (induction as arbitrary: t) auto

lemma trace_ok_fits:
  "trace_ok t as \<Longrightarrow> a \<in> set as \<Longrightarrow> length (act_id a) < 2 \<or> fits_int64 (new_qty a)"
  by (induction as arbitrary: t) (auto simp: good_def)

lemma action_data_good:
  "length d < 2 \<or> fits_int64 q \<Longrightarrow> good (action_data d c (read_drawer d c t) n q) t"
  by (simp add: good_def action_data_def Let_def)

lemma apply_new_action_data:
  "apply_new (action_data d c old n q) t = write_db d n q c t"
  by (simp add: apply_new_def action_data_def Let_def)

lemma update_all_trace:
  assumes "faults s0 = []" and "update_all ws s0 = Some s1"
  shows "\<exists>as. length as = length ws \<and> action_history s1 = action_history s0 @ as
           \<and> trace_ok (db s0) as \<and> db s1 = fold apply_new as (db s0) \<and> faults s1 = []
           \<and> (ws \<noteq> [] \<longrightarrow> redo_stack s1 = [])"
  using assms
proof (induction ws arbitrary: s0)
  case Nil
  then show ?case by simp
next
  case (Cons w ws)
  obtain d n q c where w: "w = (d, n, q, c)" by (cases w) auto
  let ?a = "action_data d c (read_drawer d c (db s0)) n q"
  let ?s = "s0\<lparr>action_history := action_history s0 @ [?a], redo_stack := [],
               db := write_db d n q c (db s0)\<rparr>"
  from Cons.prems w obtain u s' where u: "update_drawer d n q c s0 = (Inr u, s')"
    and rest: "update_all ws s' = Some s1"
    by (auto split: prod.splits sum.splits)
  have ok: "length d < 2 \<or> fits_int64 q"
    using update_drawer_Inr[OF Cons.prems(1) u] .
  have s': "s' = ?s"
    using u update_drawer_ok[OF Cons.prems(1) ok, of n c] by simp
  have f: "faults s' = []" using Cons.prems(1) by (simp add: s')
  from Cons.IH[OF f rest] obtain as where as:
    "length as = length ws" "action_history s1 = action_history s' @ as"
    "trace_ok (db s') as" "db s1 = fold apply_new as (db s')" "faults s1 = []"
    "ws \<noteq> [] \<longrightarrow> redo_stack s1 = []"
    by blast
  have r: "redo_stack s1 = []"
  proof (cases ws)
    case Nil
    with rest show ?thesis by (auto simp: s')
  next
    case (Cons x xs)
    with as(6) show ?thesis by simp
  qed
  show ?case
    apply (rule exI[of _ "?a # as"])
    using as ok r
    by (simp add: s' w action_data_good apply_new_action_data)
qed

lemma undo_times_trace:
  assumes "trace_ok t0 as" and "veq (db s) (fold apply_new as t0)" and "faults s = []"
    and "action_history s = h @ as"
  shows "veq (db (undo_times (length as) s)) t0
       \<and> action_history (undo_times (length as) s) = h
       \<and> redo_stack (undo_times (length as) s) = redo_stack s @ rev as
       \<and> faults (undo_times (length as) s) = []"
  using assms
proof (induction as arbitrary: s rule: rev_induct)
  case Nil
  then show ?case by simp
next
  case (snoc a as)
  let ?tb = "fold apply_new as t0"
  from snoc.prems(1) have tr: "trace_ok t0 as" and g: "good a ?tb"
    by (simp_all add: trace_ok_append)
  have fit: "fits_int64 (prev_qty a)"
    by (simp add: good_prev(2)[OF g] read_fits)
  have h: "action_history s = (h @ as) @ [a]" using snoc.prems(4) by simp
  let ?s = "s\<lparr>action_history := h @ as, db := undo_db a (db s), redo_stack := redo_stack s @ [a]\<rparr>"
  have u: "undo s = (True, ?s)"
    using undo_ok[OF snoc.prems(3) h fit] .
  have v: "veq (db ?s) ?tb"
    using undo_db_restores[OF g] snoc.prems(2) by simp
  have "veq (db (undo_times (length as) ?s)) t0
       \<and> action_history (undo_times (length as) ?s) = h
       \<and> redo_stack (undo_times (length as) ?s) = redo_stack ?s @ rev as
       \<and> faults (undo_times (length as) ?s) = []"
    by (rule snoc.IH[OF tr v]) (simp_all add: snoc.prems(3))
  then show ?case by (simp add: u)
qed

lemma redo_times_trace:
  assumes "faults s = []" and "redo_stack s = r @ rev as"
    and "\<And>a. a \<in> set as \<Longrightarrow> length (act_id a) < 2 \<or> fits_int64 (new_qty a)"
  shows "db (redo_times (length as) s) = fold apply_new as (db s)
       \<and> redo_stack (redo_times (length as) s) = r
       \<and> action_history (redo_times (length as) s) = action_history s @ as
       \<and> faults (redo_times (length as) s) = []"
  using assms
proof (induction as arbitrary: s)
  case Nil
  then show ?case by simp
next
  case (Cons a as)
  have rs: "redo_stack s = (r @ rev as) @ [a]" using Cons.prems(2) by simp
  have ok: "length (act_id a) < 2 \<or> fits_int64 (new_qty a)" using Cons.prems(3) by simp
  let ?s = "s\<lparr>redo_stack := r @ rev as, db := apply_new a (db s),
              action_history := action_history s @ [a]\<rparr>"
  have rd: "redo s = (True, ?s)"
    using redo_ok[OF Cons.prems(1) rs ok] .
  have "db (redo_times (length as) ?s) = fold apply_new as (db ?s)
       \<and> redo_stack (redo_times (length as) ?s) = r
       \<and> action_history (redo_times (length as) ?s) = action_history ?s @ as
       \<and> faults (redo_times (length as) ?s) = []"
    by (rule Cons.IH) (simp_all add: Cons.prems)
  then show ?case by (simp add: rd)
qed


section \<open>Undo and redo\<close>

text \<open>
  C1. Start from any table with an empty history, let no access to the store fail, and let
  \<open>n\<close> calls of \<open>update_drawer\<close> all return normally. Then after \<open>n\<close> calls of \<open>undo\<close>
  every drawer reads, through \<open>get_drawer\<close>, as it did before the first call, and after
  \<open>n\<close> further calls of \<open>redo\<close> every drawer reads as it did after the last call.
\<close>

theorem undo_redo_inverse:
  assumes "action_history s0 = []" and "faults s0 = []" and "update_all ws s0 = Some s1"
  shows "fst (get_drawer d c (undo_times (length ws) s1)) = fst (get_drawer d c s0)
       \<and> fst (get_drawer d c (redo_times (length ws) (undo_times (length ws) s1)))
           = fst (get_drawer d c s1)"
proof -
  from update_all_trace[OF assms(2,3)] assms(1) obtain as where as:
    "length as = length ws" "action_history s1 = as" "trace_ok (db s0) as"
    "db s1 = fold apply_new as (db s0)" "faults s1 = []"
    by auto
  let ?u = "undo_times (length as) s1"
  have "veq (db s1) (fold apply_new as (db s0))" by (simp add: as(4) veq_refl)
  from undo_times_trace[OF as(3) this as(5), of "[]"] as(2)
  have u: "veq (db ?u) (db s0)" "redo_stack ?u = redo_stack s1 @ rev as" "faults ?u = []"
    by simp_all
  let ?r = "redo_times (length as) ?u"
  from redo_times_trace[OF u(3) u(2)] trace_ok_fits[OF as(3)]
  have r: "db ?r = fold apply_new as (db ?u)" "faults ?r = []"
    by blast+
  have "veq (db ?r) (db s1)"
    unfolding r(1) as(4) by (rule veq_fold) (rule u(1))
  with u(1) show ?thesis
    by (simp add: as(1)[symmetric] get_drawer_read u(3) r(2) as(5) assms(2) veq_def)
qed

theorem undo_redo_inverse_witness:
  "update_all [(''A1'', ''Widget'', 5, ''Default''), (''B3'', ''Nuts'', 0, ''Default''),
               (''A1'', '''', 0, ''Default'')] bolts_store \<noteq> None
   \<and> fst (get_drawer ''B3'' ''Default''
        (undo_times 3 (the (update_all [(''A1'', ''Widget'', 5, ''Default''),
           (''B3'', ''Nuts'', 0, ''Default''), (''A1'', '''', 0, ''Default'')] bolts_store))))
       = \<lparr>name = ''Bolts'', qty = 2\<rparr>
   \<and> fst (get_drawer ''B3'' ''Default''
        (redo_times 3 (undo_times 3 (the (update_all [(''A1'', ''Widget'', 5, ''Default''),
           (''B3'', ''Nuts'', 0, ''Default''), (''A1'', '''', 0, ''Default'')] bolts_store)))))
       = \<lparr>name = ''Nuts'', qty = 0\<rparr>"
proof -
  let ?ws = "[(''A1'', ''Widget'', 5, ''Default''), (''B3'', ''Nuts'', 0, ''Default''),
              (''A1'', '''', 0, ''Default'')]"
  have h1: "action_history bolts_store = []" and h2: "faults bolts_store = []"
    by (simp_all add: bolts_store_def)
  have ne: "update_all ?ws bolts_store \<noteq> None" by code_simp
  then have h3: "update_all ?ws bolts_store = Some (the (update_all ?ws bolts_store))" by simp
  have before: "fst (get_drawer ''B3'' ''Default'' bolts_store) = \<lparr>name = ''Bolts'', qty = 2\<rparr>"
    by code_simp
  have after: "fst (get_drawer ''B3'' ''Default'' (the (update_all ?ws bolts_store)))
                 = \<lparr>name = ''Nuts'', qty = 0\<rparr>"
    by code_simp
  have len: "length ?ws = 3" by simp
  from undo_redo_inverse[OF h1 h2 h3, of "''B3''" "''Default''"] ne
  show ?thesis unfolding len before after by blast
qed

text \<open>
  C5. Whatever the state, \<open>update_drawer\<close> leaves the redo stack empty, also when its
  write fails; so after an \<open>undo\<close> and a new \<open>update_drawer\<close>, \<open>redo\<close> returns
  \<open>False\<close> and changes nothing.
\<close>

theorem redo_invalidated_by_new_write:
  "redo_stack (snd (update_drawer d n q c t)) = []
   \<and> redo (snd (update_drawer d n q c (snd (undo s))))
       = (False, snd (update_drawer d n q c (snd (undo s))))"
  by (simp add: update_drawer_stacks redo_def)

theorem redo_invalidated_by_new_write_witness:
  "fst (undo (snd (update_drawer ''B3'' ''Nuts'' 4 ''Default'' bolts_store)))
   \<and> redo_stack (snd (undo (snd (update_drawer ''B3'' ''Nuts'' 4 ''Default'' bolts_store)))) \<noteq> []
   \<and> fst (redo (snd (update_drawer ''A1'' ''Widget'' 5 ''Default''
        (snd (undo (snd (update_drawer ''B3'' ''Nuts'' 4 ''Default'' bolts_store))))))) = False
   \<and> db (snd (redo (snd (update_drawer ''A1'' ''Widget'' 5 ''Default''
        (snd (undo (snd (update_drawer ''B3'' ''Nuts'' 4 ''Default'' bolts_store)))))))) =
       [(''Default'', ''B'', ''3'', Some ''Bolts'', Some 2),
        (''Default'', ''A'', ''1'', Some ''Widget'', Some 5)]"
proof -
  let ?s = "snd (update_drawer ''B3'' ''Nuts'' 4 ''Default'' bolts_store)"
  let ?t = "snd (update_drawer ''A1'' ''Widget'' 5 ''Default'' (snd (undo ?s)))"
  have a: "fst (undo ?s)" by code_simp
  have b: "redo_stack (snd (undo ?s)) \<noteq> []" by code_simp
  have c: "db ?t =
       [(''Default'', ''B'', ''3'', Some ''Bolts'', Some 2),
        (''Default'', ''A'', ''1'', Some ''Widget'', Some 5)]" by code_simp
  from redo_invalidated_by_new_write[of "''A1''" "''Widget''" 5 "''Default''" ?s ?s]
  have r: "redo ?t = (False, ?t)" by blast
  have "fst (redo ?t) = False" "db (snd (redo ?t)) = db ?t"
    unfolding r by simp_all
  with a b c show ?thesis by simp
qed

section \<open>Recording before writing\<close>

text \<open>
  C7. \<open>update_drawer\<close> is the write applied to the state in which the action is already
  recorded. So whenever it raises, the action built from the drawer it read is the last
  entry of the history, the redo stack is empty, and the table is what it was.
\<close>

theorem write_failure_keeps_recorded_action:
  assumes "update_drawer d n q c s = (Inl e, s')"
  shows "update_drawer d n q c s =
           update_drawer_in_db d n q c
             (record_action (action_data d c (fst (get_drawer d c s)) n q) (snd (get_drawer d c s)))
       \<and> action_history s' = action_history s @ [action_data d c (fst (get_drawer d c s)) n q]
       \<and> redo_stack s' = []
       \<and> db s' = db s"
proof -
  let ?a = "action_data d c (fst (get_drawer d c s)) n q"
  have s': "s' = snd (update_drawer d n q c s)" using assms by simp
  have "fst (update_drawer_in_db d n q c (record_action ?a (snd (get_drawer d c s)))) = Inl e"
    using assms by (simp add: update_drawer_unfold)
  from write_failed_db[OF this] have "db s' = db s"
    by (simp add: s' update_drawer_unfold record_action_def get_drawer_fields)
  moreover have "action_history s' = action_history s @ [?a]" "redo_stack s' = []"
    by (simp_all add: s' update_drawer_stacks)
  ultimately show ?thesis
    using update_drawer_unfold[of d n q c s] by blast
qed

theorem write_failure_keeps_recorded_action_witness:
  "fst (update_drawer ''B3'' ''Nuts'' 5 ''Default'' (bolts_store\<lparr>faults := [False, True]\<rparr>))
     = Inl StorageError
   \<and> action_history (snd (update_drawer ''B3'' ''Nuts'' 5 ''Default''
        (bolts_store\<lparr>faults := [False, True]\<rparr>))) =
       [\<lparr>act_id = ''B3'', act_cabinet = ''Default'', prev_name = ''Bolts'', prev_qty = 2,
         new_name = ''Nuts'', new_qty = 5, act_type = Update\<rparr>]
   \<and> redo_stack (snd (update_drawer ''B3'' ''Nuts'' 5 ''Default''
        (bolts_store\<lparr>faults := [False, True]\<rparr>))) = []
   \<and> db (snd (update_drawer ''B3'' ''Nuts'' 5 ''Default''
        (bolts_store\<lparr>faults := [False, True]\<rparr>))) =
       [(''Default'', ''B'', ''3'', Some ''Bolts'', Some 2)]"
proof -
  let ?s = "bolts_store\<lparr>faults := [False, True]\<rparr>"
  let ?r = "update_drawer ''B3'' ''Nuts'' 5 ''Default'' ?s"
  have f: "fst ?r = Inl StorageError" by code_simp
  then have h: "?r = (Inl StorageError, snd ?r)" by (cases ?r) simp
  have a: "action_data ''B3'' ''Default'' (fst (get_drawer ''B3'' ''Default'' ?s)) ''Nuts'' 5 =
       \<lparr>act_id = ''B3'', act_cabinet = ''Default'', prev_name = ''Bolts'', prev_qty = 2,
        new_name = ''Nuts'', new_qty = 5, act_type = Update\<rparr>" by code_simp
  have d: "db ?s = [(''Default'', ''B'', ''3'', Some ''Bolts'', Some 2)]"
    and hs: "action_history ?s = []"
    by (simp_all add: bolts_store_def)
  from write_failure_keeps_recorded_action[OF h]
  have "action_history (snd ?r) = action_history ?s @
          [action_data ''B3'' ''Default'' (fst (get_drawer ''B3'' ''Default'' ?s)) ''Nuts'' 5]
        \<and> redo_stack (snd ?r) = [] \<and> db (snd ?r) = db ?s"
    by blast
  then show ?thesis unfolding a d hs using f by simp
qed

text \<open>
  C9. For a drawer id shorter than two characters \<open>update_drawer\<close> returns normally and
  leaves the table as it was, whatever the store does; it appends an action (of type
  \<open>'delete'\<close>, read as empty) to the history and empties the redo stack. The entry can
  be undone: \<open>undo\<close> then returns \<open>True\<close>, pops it, and leaves the table as it was.
\<close>

theorem short_id_recorded_noop:
  assumes "length d < 2"
  shows "update_drawer d n q c s =
           (Inr (), s\<lparr>action_history := action_history s @
                        [\<lparr>act_id = d, act_cabinet = c, prev_name = '''', prev_qty = 0,
                          new_name = n, new_qty = q, act_type = Delete\<rparr>],
                      redo_stack := []\<rparr>)
       \<and> db (snd (update_drawer d n q c s)) = db s
       \<and> fst (undo (snd (update_drawer d n q c s)))
       \<and> db (snd (undo (snd (update_drawer d n q c s)))) = db s
       \<and> action_history (snd (undo (snd (update_drawer d n q c s)))) = action_history s"
  using assms
  by (simp add: update_drawer_def get_drawer_short write_short record_action_def empty_drawer_def
        action_data_def undo_def Let_def)

theorem short_id_recorded_noop_witness:
  "length ''A'' < 2
   \<and> fst (update_drawer ''A'' ''Widget'' 5 ''Default'' bolts_store) = Inr ()
   \<and> action_history (snd (update_drawer ''A'' ''Widget'' 5 ''Default'' bolts_store)) =
       [\<lparr>act_id = ''A'', act_cabinet = ''Default'', prev_name = '''', prev_qty = 0,
         new_name = ''Widget'', new_qty = 5, act_type = Delete\<rparr>]
   \<and> db (snd (update_drawer ''A'' ''Widget'' 5 ''Default'' bolts_store)) = db bolts_store
   \<and> fst (undo (snd (update_drawer ''A'' ''Widget'' 5 ''Default'' bolts_store)))"
proof -
  have l: "length ''A'' < 2" by simp
  have h: "action_history bolts_store = []" by (simp add: bolts_store_def)
  note t = short_id_recorded_noop[OF l, of "''Widget''" 5 "''Default''" bolts_store]
  from t have e: "update_drawer ''A'' ''Widget'' 5 ''Default'' bolts_store =
      (Inr (), bolts_store\<lparr>action_history := action_history bolts_store @
          [\<lparr>act_id = ''A'', act_cabinet = ''Default'', prev_name = '''', prev_qty = 0,
            new_name = ''Widget'', new_qty = 5, act_type = Delete\<rparr>],
        redo_stack := []\<rparr>)" by blast
  have "fst (update_drawer ''A'' ''Widget'' 5 ''Default'' bolts_store) = Inr ()"
    "action_history (snd (update_drawer ''A'' ''Widget'' 5 ''Default'' bolts_store)) =
       [\<lparr>act_id = ''A'', act_cabinet = ''Default'', prev_name = '''', prev_qty = 0,
         new_name = ''Widget'', new_qty = 5, act_type = Delete\<rparr>]"
    unfolding e by (simp_all add: h)
  with t l show ?thesis by blast
qed


section \<open>The key space and padding\<close>

lemma keys_explicit:
  "generate_all_drawer_keys =
     [''A1'', ''A2'', ''A3'', ''A4'', ''A5'', ''A6'', ''A7'', ''A8'', ''A9'',
      ''B1'', ''B2'', ''B3'', ''B4'', ''B5'', ''B6'', ''B7'', ''B8'', ''B9'',
      ''C1'', ''C2'', ''C3'', ''C4'', ''C5'', ''C6'', ''C7'', ''C8'', ''C9'',
      ''D1'', ''D2'', ''D3'', ''D4'', ''D5'', ''D6'', ''D7'', ''D8'', ''D9'',
      ''E1'', ''E2'', ''E3'', ''E4'', ''F1'', ''F2'', ''F3'', ''F4'',
      ''G1'', ''G2'', ''G3'', ''G4'']"
  by code_simp

lemma keys_sorted: "sorted generate_all_drawer_keys"
  unfolding keys_explicit by code_simp

lemma keys_distinct: "distinct generate_all_drawer_keys"
  unfolding keys_explicit by simp

lemma keys_length: "length generate_all_drawer_keys = 48"
  unfolding keys_explicit by simp

lemma keys_set:
  "set generate_all_drawer_keys =
     (\<lambda>(r, k). [r, k]) ` (set ''ABCD'' \<times> set ''123456789'' \<union> set ''EFG'' \<times> set ''1234'')"
  unfolding keys_explicit by (simp add: image_Un insert_commute)

lemma fold_nested: "fold (\<lambda>x. fold f (g x)) xs = fold f (concat (map g xs))"
  by (induction xs) auto

lemma pad_inventory_fold: "pad_inventory m = fold pad_key generate_all_drawer_keys m"
  unfolding pad_inventory_def generate_all_drawer_keys_def Let_def
  by (simp only: fold_append fold_nested[where f = pad_key, symmetric] fold_map comp_def)

lemma dict_set_absent: "map_of m k = None \<Longrightarrow> dict_set k v m = m @ [(k, v)]"
  by (induction m) (auto split: if_splits)

lemma dict_set_map_of: "map_of (dict_set k v m) = (map_of m)(k \<mapsto> v)"
  by (induction m) auto

lemma dict_set_keys: "fst ` set (dict_set k v m) = insert k (fst ` set m)"
  by (simp add: dom_map_of_conv_image_fst[symmetric] dict_set_map_of)

lemma fold_pad_key:
  "distinct ks \<Longrightarrow>
   fold pad_key ks m =
     m @ map (\<lambda>k. (k, \<lparr>name = '''', qty = 0\<rparr>)) (filter (\<lambda>k. map_of m k = None) ks)"
proof (induction ks arbitrary: m)
  case Nil
  then show ?case by simp
next
  case (Cons k ks)
  have same: "\<And>k'. k' \<in> set ks \<Longrightarrow> (map_of (pad_key k m) k' = None) = (map_of m k' = None)"
    using Cons.prems by (auto simp: pad_key_def dict_set_map_of)
  have "filter (\<lambda>k'. map_of (pad_key k m) k' = None) ks = filter (\<lambda>k'. map_of m k' = None) ks"
    by (rule filter_cong) (auto simp: same)
  with Cons show ?case
    by (simp add: pad_key_def dict_set_absent)
qed

lemma pad_inventory_append:
  "pad_inventory m =
     m @ map (\<lambda>k. (k, \<lparr>name = '''', qty = 0\<rparr>))
           (filter (\<lambda>k. map_of m k = None) generate_all_drawer_keys)"
  by (simp add: pad_inventory_fold fold_pad_key keys_distinct)

lemma map_of_defaults:
  "map_of (map (\<lambda>k. (k, v)) ks) k = (if k \<in> set ks then Some v else None)"
  by (induction ks) auto

lemma pad_inventory_map_of:
  "map_of (pad_inventory m) k =
     (case map_of m k of
        Some v \<Rightarrow> Some v
      | None \<Rightarrow> if k \<in> set generate_all_drawer_keys then Some \<lparr>name = '''', qty = 0\<rparr> else None)"
  by (simp add: pad_inventory_append map_of_append map_add_def map_of_defaults
           split: option.splits)

text \<open>
  C4, with the number of keys the code has: rows A to D with columns 1 to 9 and rows E to
  G with columns 1 to 4 are 48 keys. \<open>pad_inventory m\<close> is \<open>m\<close> followed by
  \<open>{name: "", qty: 0}\<close> for each of these keys that \<open>m\<close> lacks, in the order of
  \<open>generate_all_drawer_keys\<close>: every one of the 48 keys is bound, a key absent from
  \<open>m\<close> to the empty drawer, and every entry of \<open>m\<close>, canonical or not, stays as it is.
\<close>

theorem pad_inventory_complete:
  "set generate_all_drawer_keys =
     (\<lambda>(r, k). [r, k]) ` (set ''ABCD'' \<times> set ''123456789'' \<union> set ''EFG'' \<times> set ''1234'')
   \<and> distinct generate_all_drawer_keys \<and> length generate_all_drawer_keys = 48
   \<and> pad_inventory m =
       m @ map (\<lambda>k. (k, \<lparr>name = '''', qty = 0\<rparr>))
             (filter (\<lambda>k. map_of m k = None) generate_all_drawer_keys)
   \<and> (\<forall>k\<in>set generate_all_drawer_keys.
         map_of (pad_inventory m) k =
           Some (case map_of m k of None \<Rightarrow> \<lparr>name = '''', qty = 0\<rparr> | Some v \<Rightarrow> v))
   \<and> (\<forall>k v. map_of m k = Some v \<longrightarrow> map_of (pad_inventory m) k = Some v)"
proof -
  have "\<forall>k\<in>set generate_all_drawer_keys.
         map_of (pad_inventory m) k =
           Some (case map_of m k of None \<Rightarrow> \<lparr>name = [], qty = 0\<rparr> | Some v \<Rightarrow> v)"
    by (simp add: pad_inventory_map_of split: option.splits)
  moreover have "\<forall>k v. map_of m k = Some v \<longrightarrow> map_of (pad_inventory m) k = Some v"
    by (simp add: pad_inventory_map_of)
  ultimately show ?thesis
    using pad_inventory_append[of m] keys_set keys_distinct keys_length by blast
qed

theorem pad_inventory_complete_witness:
  "''G4'' \<in> set generate_all_drawer_keys
   \<and> map_of (pad_inventory [(''Z9'', \<lparr>name = ''x'', qty = 1\<rparr>), (''A2'', \<lparr>name = ''y'', qty = 2\<rparr>)]) ''G4''
       = Some \<lparr>name = '''', qty = 0\<rparr>
   \<and> ''A2'' \<in> set generate_all_drawer_keys
   \<and> map_of (pad_inventory [(''Z9'', \<lparr>name = ''x'', qty = 1\<rparr>), (''A2'', \<lparr>name = ''y'', qty = 2\<rparr>)]) ''A2''
       = Some \<lparr>name = ''y'', qty = 2\<rparr>
   \<and> map_of (pad_inventory [(''Z9'', \<lparr>name = ''x'', qty = 1\<rparr>), (''A2'', \<lparr>name = ''y'', qty = 2\<rparr>)]) ''Z9''
       = Some \<lparr>name = ''x'', qty = 1\<rparr>"
proof -
  let ?m = "[(''Z9'', \<lparr>name = ''x'', qty = 1\<rparr>), (''A2'', \<lparr>name = ''y'', qty = 2\<rparr>)]"
  have g: "''G4'' \<in> set generate_all_drawer_keys" and a: "''A2'' \<in> set generate_all_drawer_keys"
    unfolding keys_explicit by simp_all
  have mg: "map_of ?m ''G4'' = None" and ma: "map_of ?m ''A2'' = Some \<lparr>name = ''y'', qty = 2\<rparr>"
    and mz: "map_of ?m ''Z9'' = Some \<lparr>name = ''x'', qty = 1\<rparr>"
    by simp_all
  note t = pad_inventory_complete[of ?m]
  from t g have "map_of (pad_inventory ?m) ''G4'' =
      Some (case map_of ?m ''G4'' of None \<Rightarrow> \<lparr>name = '''', qty = 0\<rparr> | Some v \<Rightarrow> v)"
    by blast
  moreover from t a have "map_of (pad_inventory ?m) ''A2'' =
      Some (case map_of ?m ''A2'' of None \<Rightarrow> \<lparr>name = '''', qty = 0\<rparr> | Some v \<Rightarrow> v)"
    by blast
  moreover from t mz have "map_of (pad_inventory ?m) ''Z9'' = Some \<lparr>name = ''x'', qty = 1\<rparr>"
    by blast
  ultimately show ?thesis using g a by (simp only: mg ma option.case)
qed

text \<open>The padded empty map has 48 keys, all different: not 31.\<close>

theorem pad_inventory_not_31_keys:
  "distinct (map fst (pad_inventory [])) \<and> length (pad_inventory []) = 48
   \<and> length (pad_inventory []) \<noteq> 31"
  by (simp add: pad_inventory_append keys_distinct keys_length comp_def)


section \<open>Used and available keys\<close>

lemma upper_char_idem: "upper_char (upper_char c) = upper_char c"
  by (auto simp: upper_char_def split: option.splits if_splits)

lemma upper_idem: "upper (upper s) = upper s"
  by (simp add: upper_def upper_char_idem)

lemma upper_append: "upper (a @ b) = upper a @ upper b"
  by (simp add: upper_def)

lemma upper_key: "upper (upper (take 1 d) @ drop 1 d) = upper d"
proof -
  have "upper (upper (take 1 d) @ drop 1 d) = upper (take 1 d @ drop 1 d)"
    by (simp only: upper_append upper_idem)
  then show ?thesis by simp
qed

lemma get_inventory_ok:
  "faults s = [] \<Longrightarrow>
   get_inventory c s =
     (fold (\<lambda>(row, column, n, q) inventory.
              dict_set (upper (row @ column)) (as_drawer n q) inventory)
        (select_cabinet c (db s)) [], s)"
  by (simp add: get_inventory_def connect_ok)

lemma fold_dict_set_keys:
  "fst ` set (fold (\<lambda>(row, column, n, q) inventory.
                     dict_set (upper (row @ column)) (as_drawer n q) inventory) rows m)
     = fst ` set m \<union> (\<lambda>(r, cl, n, q). upper (r @ cl)) ` set rows"
proof (induction rows arbitrary: m)
  case Nil
  then show ?case by simp
next
  case (Cons x rows)
  obtain r cl n q where x: "x = (r, cl, n, q)" by (cases x) auto
  show ?case by (simp add: x Cons.IH dict_set_keys)
qed

lemma get_inventory_keys:
  assumes "faults s = []" and "(c, r, cl, n, q) \<in> set (db s)"
  shows "upper (r @ cl) \<in> fst ` set (fst (get_inventory c s))"
proof -
  have "(r, cl, n, q) \<in> set (select_cabinet c (db s))"
    using assms(2) by (force simp: select_cabinet_def)
  then have "upper (r @ cl) \<in> (\<lambda>(r, cl, n, q). upper (r @ cl)) ` set (select_cabinet c (db s))"
    by force
  then show ?thesis
    by (simp add: get_inventory_ok[OF assms(1)] fold_dict_set_keys)
qed

lemma available_keys_filter:
  "available_keys inventory =
     filter (\<lambda>k. k \<notin> fst ` set inventory) generate_all_drawer_keys"
proof -
  let ?xs = "filter (\<lambda>k. k \<notin> fst ` set inventory) generate_all_drawer_keys"
  have "distinct ?xs" by (simp add: keys_distinct)
  moreover have "sorted ?xs" by (rule sorted_wrt_filter) (rule keys_sorted)
  ultimately have "sort (remdups ?xs) = ?xs"
    by (simp add: distinct_remdups_id sorted_sort_id)
  then show ?thesis by (simp add: available_keys_def Let_def)
qed

lemma used_not_available: "(k, v) \<in> set inventory \<Longrightarrow> k \<notin> set (available_keys inventory)"
  by (force simp: available_keys_filter)

lemma write_db_row:
  "2 \<le> length d \<Longrightarrow>
   (c, upper (take 1 d), drop 1 d, Some n, Some (word_of_int q)) \<in> set (write_db d n q c t)"
  by (simp add: write_db_def insert_or_replace_def)

lemma written_not_available:
  assumes "faults s = []" and "2 \<le> length d" and "db s = write_db d n q c t"
  shows "upper d \<notin> set (available_keys (fst (get_inventory c s)))"
proof -
  have "(c, upper (take 1 d), drop 1 d, Some n, Some (word_of_int q)) \<in> set (db s)"
    unfolding assms(3) by (rule write_db_row[OF assms(2)])
  from get_inventory_keys[OF assms(1) this]
  have "upper d \<in> fst ` set (fst (get_inventory c s))"
    by (simp only: upper_key)
  then show ?thesis by (auto simp: available_keys_filter)
qed

text \<open>
  C10. A key of the fetched inventory map is never among the available keys, whatever
  value it holds, and every row of the table for the cabinet gives such a key. So, with
  no access to the store failing and a drawer id of at least two characters: after a
  write of \<open>("", 0)\<close> the drawer reads as empty and its key is not available, and after
  the undo of a write to a drawer that read as empty (type \<open>'delete'\<close>, the kind
  Create) the drawer reads as empty and its key is not available.
\<close>

theorem emptied_drawer_is_not_available:
  assumes "faults s = []" and "2 \<le> length d"
  shows "(\<forall>k v. (k, v) \<in> set inventory \<longrightarrow> k \<notin> set (available_keys inventory))
       \<and> (\<forall>r cl n' q'. (c, r, cl, n', q') \<in> set (db s) \<longrightarrow>
             upper (r @ cl) \<notin> set (available_keys (fst (get_inventory c s))))
       \<and> fst (get_drawer d c (snd (update_drawer d '''' 0 c s))) = \<lparr>name = '''', qty = 0\<rparr>
       \<and> upper d \<notin> set (available_keys (fst (get_inventory c (snd (update_drawer d '''' 0 c s)))))
       \<and> (fst (get_drawer d c s) = \<lparr>name = '''', qty = 0\<rparr> \<longrightarrow> fits_int64 q \<longrightarrow>
            act_type (last (action_history (snd (update_drawer d n q c s)))) = Delete
            \<and> fst (get_drawer d c (snd (undo (snd (update_drawer d n q c s)))))
                = \<lparr>name = '''', qty = 0\<rparr>
            \<and> upper d \<notin> set (available_keys
                 (fst (get_inventory c (snd (undo (snd (update_drawer d n q c s))))))))"
proof -
  have p1: "\<forall>k v. (k, v) \<in> set inventory \<longrightarrow> k \<notin> set (available_keys inventory)"
    by (blast dest: used_not_available)
  have p2: "\<forall>r cl n' q'. (c, r, cl, n', q') \<in> set (db s) \<longrightarrow>
             upper (r @ cl) \<notin> set (available_keys (fst (get_inventory c s)))"
    using get_inventory_keys[OF assms(1)] by (auto simp: available_keys_filter)
  have z: "sint (word_of_int 0 :: 64 word) = 0" by simp
  let ?z = "snd (update_drawer d '''' 0 c s)"
  have uz: "update_drawer d '''' 0 c s =
      (Inr (), s\<lparr>action_history := action_history s @ [action_data d c (read_drawer d c (db s)) '''' 0],
                 redo_stack := [], db := write_db d '''' 0 c (db s)\<rparr>)"
    by (rule update_drawer_ok[OF assms(1)]) (simp add: fits_zero)
  have fz: "faults ?z = []" and dz: "db ?z = write_db d '''' 0 c (db s)"
    by (simp_all add: uz assms(1))
  have p3: "fst (get_drawer d c ?z) = \<lparr>name = '''', qty = 0\<rparr>"
    using assms(2) by (simp add: get_drawer_read[OF fz] dz read_write)
  have p4: "upper d \<notin> set (available_keys (fst (get_inventory c ?z)))"
    by (rule written_not_available[OF fz assms(2) dz])
  have p5: "act_type (last (action_history (snd (update_drawer d n q c s)))) = Delete
            \<and> fst (get_drawer d c (snd (undo (snd (update_drawer d n q c s)))))
                = \<lparr>name = '''', qty = 0\<rparr>
            \<and> upper d \<notin> set (available_keys
                 (fst (get_inventory c (snd (undo (snd (update_drawer d n q c s)))))))"
    if e: "fst (get_drawer d c s) = \<lparr>name = '''', qty = 0\<rparr>" and fq: "fits_int64 q"
  proof -
    let ?a = "action_data d c (read_drawer d c (db s)) n q"
    let ?s1 = "snd (update_drawer d n q c s)"
    have old: "read_drawer d c (db s) = \<lparr>name = '''', qty = 0\<rparr>"
      using e by (simp add: get_drawer_read[OF assms(1)])
    have ty: "act_type ?a = Delete" and pq: "prev_qty ?a = 0"
      and ai: "act_id ?a = d" and ac: "act_cabinet ?a = c"
      by (simp_all add: action_data_def Let_def old)
    have u1: "update_drawer d n q c s =
        (Inr (), s\<lparr>action_history := action_history s @ [?a], redo_stack := [],
                   db := write_db d n q c (db s)\<rparr>)"
      by (rule update_drawer_ok[OF assms(1)]) (simp add: fq)
    have f1: "faults ?s1 = []" and h1: "action_history ?s1 = action_history s @ [?a]"
      by (simp_all add: u1 assms(1))
    have un: "undo ?s1 = (True, ?s1\<lparr>action_history := action_history s,
                 db := undo_db ?a (db ?s1), redo_stack := redo_stack ?s1 @ [?a]\<rparr>)"
      by (rule undo_ok[OF f1 h1]) (simp add: pq fits_zero)
    let ?s2 = "snd (undo ?s1)"
    have f2: "faults ?s2 = []" and d2: "db ?s2 = write_db d '''' 0 c (db ?s1)"
      by (simp_all add: un f1 undo_db_def ty ai ac)
    have "fst (get_drawer d c ?s2) = \<lparr>name = '''', qty = 0\<rparr>"
      using assms(2) by (simp add: get_drawer_read[OF f2] d2 read_write)
    moreover have "upper d \<notin> set (available_keys (fst (get_inventory c ?s2)))"
      by (rule written_not_available[OF f2 assms(2) d2])
    ultimately show ?thesis by (simp add: h1 ty)
  qed
  from p1 p2 p3 p4 p5 show ?thesis by blast
qed

theorem emptied_drawer_is_not_available_witness:
  "faults bolts_store = [] \<and> 2 \<le> length ''B3''
   \<and> fst (get_drawer ''B3'' ''Default'' (snd (update_drawer ''B3'' '''' 0 ''Default'' bolts_store)))
       = \<lparr>name = '''', qty = 0\<rparr>
   \<and> ''B3'' \<notin> set (available_keys
        (fst (get_inventory ''Default'' (snd (update_drawer ''B3'' '''' 0 ''Default'' bolts_store)))))
   \<and> fst (get_drawer ''A1'' ''Default'' bolts_store) = \<lparr>name = '''', qty = 0\<rparr>
   \<and> ''A1'' \<notin> set (available_keys (fst (get_inventory ''Default''
        (snd (undo (snd (update_drawer ''A1'' ''Widget'' 5 ''Default'' bolts_store)))))))
   \<and> hd (available_keys (fst (get_inventory ''Default''
        (snd (undo (snd (update_drawer ''A1'' ''Widget'' 5 ''Default'' bolts_store))))))) = ''A2''"
proof -
  have f: "faults bolts_store = []" by (simp add: bolts_store_def)
  have lb: "2 \<le> length ''B3''" and la: "2 \<le> length ''A1''" by simp_all
  have ub: "upper ''B3'' = ''B3''" and ua: "upper ''A1'' = ''A1''" by code_simp+
  have e: "fst (get_drawer ''A1'' ''Default'' bolts_store) = \<lparr>name = '''', qty = 0\<rparr>"
    by code_simp
  have q: "fits_int64 5" by (simp add: fits_int64_def)
  have h: "hd (available_keys (fst (get_inventory ''Default''
        (snd (undo (snd (update_drawer ''A1'' ''Widget'' 5 ''Default'' bolts_store))))))) = ''A2''"
    by code_simp
  from emptied_drawer_is_not_available[OF f lb, of "[]" "''Default''" 5 "''Widget''"]
  have b: "fst (get_drawer ''B3'' ''Default'' (snd (update_drawer ''B3'' '''' 0 ''Default'' bolts_store)))
       = \<lparr>name = '''', qty = 0\<rparr>
     \<and> upper ''B3'' \<notin> set (available_keys
        (fst (get_inventory ''Default'' (snd (update_drawer ''B3'' '''' 0 ''Default'' bolts_store)))))"
    by blast
  from emptied_drawer_is_not_available[OF f la, of "[]" "''Default''" 5 "''Widget''"] e q
  have a: "upper ''A1'' \<notin> set (available_keys (fst (get_inventory ''Default''
        (snd (undo (snd (update_drawer ''A1'' ''Widget'' 5 ''Default'' bolts_store)))))))"
    by blast
  from a b e f h lb show ?thesis unfolding ua ub by blast
qed


section \<open>Resolution of records\<close>





lemma update_read:
  assumes "faults s = []" and "2 \<le> length d" and "fits_int64 q"
  shows "fst (get_drawer d c (snd (update_drawer d n q c s))) = \<lparr>name = n, qty = q\<rparr>"
proof -
  have u: "update_drawer d n q c s =
      (Inr (), s\<lparr>action_history := action_history s @ [action_data d c (read_drawer d c (db s)) n q],
                 redo_stack := [], db := write_db d n q c (db s)\<rparr>)"
    by (rule update_drawer_ok[OF assms(1)]) (simp add: assms(3))
  show ?thesis
    using assms by (simp add: u get_drawer_read read_write sint_fits)
qed


lemma first_match_Some:
  "first_match nm inventory = Some k \<Longrightarrow>
   \<exists>v. (k, v) \<in> set inventory \<and> lower (name v) = lower nm"
  by (induction inventory) (auto simp: first_match_def split: if_splits)












section \<open>The fetched inventory of a normal table\<close>


























text \<open>
  C8. The line \<open>A1: Bolt (M3) (5)\<close>, which the TXT export writes for a drawer named
  \<open>Bolt (M3)\<close> holding 5: the quantity is looked for from the first \<open>(\<close> to the last
  \<open>)\<close>, \<open>int\<close> fails on \<open>M3) (5\<close>, the comma parser finds one field, and the line is
  skipped.
\<close>

theorem import_txt_first_parenthesis:
  "find_char CHR ''('' ''Bolt (M3) (5)'' = 5
   \<and> rfind_char CHR '')'' ''Bolt (M3) (5)'' = 12
   \<and> parse_id_name_qty ''A1: Bolt (M3) (5)'' = None
   \<and> parse_id_name_qty ''A1: Bolt (5)'' = Some (''A1'', ''Bolt'', 5)
   \<and> import_txt ''A1: Bolt (M3) (5)'' ''Default'' empty_store = (True, empty_store)"
  by code_simp


section \<open>Classification of the recorded action\<close>

text \<open>
  C6. Let no access to the store fail and let \<open>update_drawer\<close> return normally. The action
  built from the drawer as it read before the call and from the values written is appended
  to the history, and for a drawer id of at least two characters the drawer then reads as
  the values written. When the drawer read as \<open>{name: "", qty: 0}\<close> before the call,
  the action recorded is of type \<open>'delete'\<close> (the kind Create) and the next \<open>undo\<close>
  succeeds, takes the action off the history and leaves the drawer reading as
  \<open>{name: "", qty: 0}\<close>; otherwise the action is of type \<open>'update'\<close> and the next
  \<open>undo\<close> succeeds, takes the action off the history and leaves the drawer reading as
  before the call.
\<close>

theorem create_update_classification:
  assumes "faults s = []" and "update_drawer d n q c s = (Inr u, s1)"
  shows "action_history s1 = action_history s @ [action_data d c (fst (get_drawer d c s)) n q]
       \<and> act_id (last (action_history s1)) = d
       \<and> act_cabinet (last (action_history s1)) = c
       \<and> prev_name (last (action_history s1)) = name (fst (get_drawer d c s))
       \<and> prev_qty (last (action_history s1)) = qty (fst (get_drawer d c s))
       \<and> new_name (last (action_history s1)) = n
       \<and> new_qty (last (action_history s1)) = q
       \<and> (2 \<le> length d \<longrightarrow> fst (get_drawer d c s1) = \<lparr>name = n, qty = q\<rparr>)
       \<and> action_history (snd (undo s1)) = action_history s
       \<and> (fst (get_drawer d c s) = \<lparr>name = '''', qty = 0\<rparr> \<longrightarrow>
            act_type (last (action_history s1)) = Delete \<and> fst (undo s1)
            \<and> fst (get_drawer d c (snd (undo s1))) = \<lparr>name = '''', qty = 0\<rparr>)
       \<and> (fst (get_drawer d c s) \<noteq> \<lparr>name = '''', qty = 0\<rparr> \<longrightarrow>
            act_type (last (action_history s1)) = Update \<and> fst (undo s1)
            \<and> fst (get_drawer d c (snd (undo s1))) = fst (get_drawer d c s))"
proof -
  let ?old = "read_drawer d c (db s)"
  let ?a = "action_data d c ?old n q"
  have ok: "length d < 2 \<or> fits_int64 q"
    using update_drawer_Inr[OF assms] .
  have s1: "s1 = s\<lparr>action_history := action_history s @ [?a], redo_stack := [],
                    db := write_db d n q c (db s)\<rparr>"
    using assms(2) update_drawer_ok[OF assms(1) ok, of n c] by simp
  have g: "good ?a (db s)" by (rule action_data_good[OF ok])
  have fit: "fits_int64 (prev_qty ?a)"
    by (simp add: good_prev(2)[OF g] read_fits)
  have f1: "faults s1 = []" and h1: "action_history s1 = action_history s @ [?a]"
    by (simp_all add: s1 assms(1))
  have un: "undo s1 = (True, s1\<lparr>action_history := action_history s, db := undo_db ?a (db s1),
                                redo_stack := redo_stack s1 @ [?a]\<rparr>)"
    using undo_ok[OF f1 h1 fit] .
  have "veq (db s1) (apply_new ?a (db s))"
    by (simp add: s1 apply_new_action_data veq_refl)
  from undo_db_restores[OF g this] have "read_drawer d c (undo_db ?a (db s1)) = ?old"
    by (simp add: veq_def)
  then have restored: "fst (get_drawer d c (snd (undo s1))) = ?old"
    by (simp add: un get_drawer_read f1)
  have ty: "act_type (last (action_history s1)) =
              (if ?old = \<lparr>name = '''', qty = 0\<rparr> then Delete else Update)"
  proof -
    have "(name ?old = '''' \<and> qty ?old = 0) = (?old = \<lparr>name = '''', qty = 0\<rparr>)"
      by (cases ?old) auto
    then show ?thesis by (simp add: h1 action_data_def Let_def)
  qed
  have r0: "fst (get_drawer d c s) = ?old"
    by (simp add: get_drawer_read assms(1))
  have u1: "fst (undo s1)" by (simp add: un)
  have fields: "act_id (last (action_history s1)) = d"
    "act_cabinet (last (action_history s1)) = c"
    "prev_name (last (action_history s1)) = name ?old"
    "prev_qty (last (action_history s1)) = qty ?old"
    "new_name (last (action_history s1)) = n"
    "new_qty (last (action_history s1)) = q"
    by (simp_all add: h1 action_data_def Let_def)
  have written: "fst (get_drawer d c s1) = \<lparr>name = n, qty = q\<rparr>" if l: "2 \<le> length d"
  proof -
    from ok l have "fits_int64 q" by simp
    from update_read[OF assms(1) l this, where n = n and c = c] show ?thesis
      by (simp add: assms(2))
  qed
  have popped: "action_history (snd (undo s1)) = action_history s"
    by (simp add: un)
  have cls: "(?old = \<lparr>name = '''', qty = 0\<rparr> \<longrightarrow>
            act_type (last (action_history s1)) = Delete \<and> fst (undo s1)
            \<and> fst (get_drawer d c (snd (undo s1))) = \<lparr>name = '''', qty = 0\<rparr>)
       \<and> (?old \<noteq> \<lparr>name = '''', qty = 0\<rparr> \<longrightarrow>
            act_type (last (action_history s1)) = Update \<and> fst (undo s1)
            \<and> fst (get_drawer d c (snd (undo s1))) = ?old)"
    using restored ty u1 by (cases "?old = \<lparr>name = [], qty = 0\<rparr>") simp_all
  show ?thesis
    unfolding r0 using h1 fields written popped cls by blast
qed

theorem create_update_classification_witness:
  "fst (update_drawer ''A1'' ''Widget'' 5 ''Default'' empty_store) = Inr ()
   \<and> fst (get_drawer ''A1'' ''Default'' empty_store) = \<lparr>name = '''', qty = 0\<rparr>
   \<and> fst (get_drawer ''A1'' ''Default''
        (snd (update_drawer ''A1'' ''Widget'' 5 ''Default'' empty_store)))
       = \<lparr>name = ''Widget'', qty = 5\<rparr>
   \<and> act_type (last (action_history (snd (update_drawer ''A1'' ''Widget'' 5 ''Default'' empty_store))))
       = Delete
   \<and> fst (undo (snd (update_drawer ''A1'' ''Widget'' 5 ''Default'' empty_store)))
   \<and> fst (get_drawer ''A1'' ''Default''
        (snd (undo (snd (update_drawer ''A1'' ''Widget'' 5 ''Default'' empty_store)))))
       = \<lparr>name = '''', qty = 0\<rparr>
   \<and> fst (update_drawer ''B3'' ''Nuts'' 4 ''Default'' bolts_store) = Inr ()
   \<and> fst (get_drawer ''B3'' ''Default''
        (snd (update_drawer ''B3'' ''Nuts'' 4 ''Default'' bolts_store)))
       = \<lparr>name = ''Nuts'', qty = 4\<rparr>
   \<and> act_type (last (action_history (snd (update_drawer ''B3'' ''Nuts'' 4 ''Default'' bolts_store))))
       = Update
   \<and> prev_name (last (action_history (snd (update_drawer ''B3'' ''Nuts'' 4 ''Default'' bolts_store))))
       = ''Bolts''
   \<and> prev_qty (last (action_history (snd (update_drawer ''B3'' ''Nuts'' 4 ''Default'' bolts_store))))
       = 2
   \<and> fst (undo (snd (update_drawer ''B3'' ''Nuts'' 4 ''Default'' bolts_store)))
   \<and> fst (get_drawer ''B3'' ''Default''
        (snd (undo (snd (update_drawer ''B3'' ''Nuts'' 4 ''Default'' bolts_store)))))
       = \<lparr>name = ''Bolts'', qty = 2\<rparr>"
proof -
  let ?e = "update_drawer ''A1'' ''Widget'' 5 ''Default'' empty_store"
  let ?b = "update_drawer ''B3'' ''Nuts'' 4 ''Default'' bolts_store"
  have fe: "faults empty_store = []" and fb: "faults bolts_store = []"
    by (simp_all add: empty_store_def bolts_store_def)
  have re: "fst ?e = Inr ()" and rb: "fst ?b = Inr ()" by code_simp+
  have he: "?e = (Inr (), snd ?e)" using re by (cases ?e) simp
  have hb: "?b = (Inr (), snd ?b)" using rb by (cases ?b) simp
  have oe: "fst (get_drawer ''A1'' ''Default'' empty_store) = \<lparr>name = '''', qty = 0\<rparr>"
    by code_simp
  have ob: "fst (get_drawer ''B3'' ''Default'' bolts_store) = \<lparr>name = ''Bolts'', qty = 2\<rparr>"
    by code_simp
  have nb: "\<lparr>name = ''Bolts'', qty = 2\<rparr> \<noteq> \<lparr>name = '''', qty = 0\<rparr>" by simp
  have la: "2 \<le> length ''A1''" and lb: "2 \<le> length ''B3''" by simp_all
  have sb: "name \<lparr>name = ''Bolts'', qty = 2::int\<rparr> = ''Bolts''"
    "qty \<lparr>name = ''Bolts'', qty = 2::int\<rparr> = 2"
    by simp_all
  note te = create_update_classification[OF fe he, unfolded oe]
  note tb = create_update_classification[OF fb hb, unfolded ob sb]
  from te la have e: "fst (get_drawer ''A1'' ''Default'' (snd ?e)) = \<lparr>name = ''Widget'', qty = 5\<rparr>"
    "act_type (last (action_history (snd ?e))) = Delete"
    "fst (undo (snd ?e))"
    "fst (get_drawer ''A1'' ''Default'' (snd (undo (snd ?e)))) = \<lparr>name = '''', qty = 0\<rparr>"
    by blast+
  from tb lb nb have b: "fst (get_drawer ''B3'' ''Default'' (snd ?b)) = \<lparr>name = ''Nuts'', qty = 4\<rparr>"
    "act_type (last (action_history (snd ?b))) = Update"
    "prev_name (last (action_history (snd ?b))) = ''Bolts''"
    "prev_qty (last (action_history (snd ?b))) = 2"
    "fst (undo (snd ?b))"
    "fst (get_drawer ''B3'' ''Default'' (snd (undo (snd ?b)))) = \<lparr>name = ''Bolts'', qty = 2\<rparr>"
    by blast+
  from re oe e rb b show ?thesis by blast
qed




end
